theory Spec2Isabelle
  imports Complex_Main
begin

section \<open>Strings\<close>

text \<open>
  A Python \<open>str\<close> is a sequence of Unicode code points, so a string is a list of
  code points here. \<open>u\<close> embeds an ASCII literal.
\<close>

type_synonym ustr = "nat list"

definition u :: "string \<Rightarrow> ustr" where
  "u s = map of_char s"

text \<open>
  The code points for which \<open>str.isspace\<close> holds. They are also the class \<open>\s\<close> of
  a \<open>re\<close> pattern over \<open>str\<close> and what \<open>str.strip()\<close> removes.
\<close>

definition is_space :: "nat \<Rightarrow> bool" where
  "is_space c \<longleftrightarrow> c \<in> set [9, 10, 11, 12, 13, 28, 29, 30, 31, 32, 133, 160, 5760,
     8192, 8193, 8194, 8195, 8196, 8197, 8198, 8199, 8200, 8201, 8202,
     8232, 8233, 8239, 8287, 12288]"

text \<open>The class \<open>[a-z0-9]\<close>.\<close>

definition is_az09 :: "nat \<Rightarrow> bool" where
  "is_az09 c \<longleftrightarrow> (97 \<le> c \<and> c \<le> 122) \<or> (48 \<le> c \<and> c \<le> 57)"

text \<open>The class \<open>\w\<close> on an ASCII string: letters, digits and the underscore.\<close>

definition is_word :: "nat \<Rightarrow> bool" where
  "is_word c \<longleftrightarrow> is_az09 c \<or> (65 \<le> c \<and> c \<le> 90) \<or> c = 95"

text \<open>\<open>str.lower()\<close> on an ASCII string.\<close>

definition ascii_lower :: "ustr \<Rightarrow> ustr" where
  "ascii_lower s = map (\<lambda>c. if 65 \<le> c \<and> c \<le> 90 then c + 32 else c) s"

text \<open>\<open>s.encode("ascii", "ignore").decode("ascii")\<close>: the code points below 128 stay.\<close>

definition encode_ascii_ignore :: "ustr \<Rightarrow> ustr" where
  "encode_ascii_ignore s = filter (\<lambda>c. c < 128) s"

text \<open>
  \<open>re.sub(r"[C]+", rep, s)\<close> for a character class \<open>C\<close>: every maximal run of
  characters of the class is replaced by \<open>rep\<close>.
\<close>

function re_sub_runs :: "(nat \<Rightarrow> bool) \<Rightarrow> ustr \<Rightarrow> ustr \<Rightarrow> ustr" where
  "re_sub_runs C rep [] = []"
| "re_sub_runs C rep (c # cs) =
     (if C c then rep @ re_sub_runs C rep (dropWhile C cs)
      else c # re_sub_runs C rep cs)"
  by pat_completeness auto
termination
  by (relation "measure (\<lambda>(C, rep, s). length s)")
     (auto simp: length_dropWhile_le less_Suc_eq_le)

text \<open>\<open>str.strip()\<close>.\<close>

definition py_strip :: "ustr \<Rightarrow> ustr" where
  "py_strip s = rev (dropWhile is_space (rev (dropWhile is_space s)))"

section \<open>Library functions taken as parameters\<close>

text \<open>
  The functions of the Python library, of pandas and of rapidfuzz that the program calls
  and whose tables are not part of the repository:
  \<^item> \<open>nfkd\<close> is \<open>unicodedata.normalize("NFKD", \<cdot>)\<close>;
  \<^item> \<open>py_lower\<close> and \<open>py_title\<close> are \<open>str.lower\<close> and \<open>str.title\<close>;
  \<^item> \<open>re_digit\<close> is the class \<open>\d\<close> of a \<open>re\<close> pattern over \<open>str\<close>;
  \<^item> \<open>py_str\<close> is \<open>str\<close> of a number;
  \<^item> \<open>to_numeric\<close> is what \<open>pd.to_numeric(errors="coerce")\<close> makes of one string,
    \<open>None\<close> being NaN;
  \<^item> \<open>token_sort_ratio\<close> is \<open>rapidfuzz.fuzz.token_sort_ratio\<close>;
  \<^item> \<open>loc_assign\<close> is what \<open>df.loc[mask, cols] = series\<close> stores in the cells of
    one row when the element of the series for that row is the dict of a registry
    entity: it takes the values of the dict and gives the new cells.
  Numbers are rationals: the rounding of floating point is not modelled.
\<close>

text \<open>A cell of a \<open>DataFrame\<close> is missing (\<open>NaN\<close>), a string or a number.\<close>

datatype cell = NA | Str ustr | Num rat

record pylib =
  nfkd :: "ustr \<Rightarrow> ustr"
  py_lower :: "ustr \<Rightarrow> ustr"
  py_title :: "ustr \<Rightarrow> ustr"
  re_digit :: "nat \<Rightarrow> bool"
  py_str :: "rat \<Rightarrow> ustr"
  to_numeric :: "ustr \<Rightarrow> rat option"
  token_sort_ratio :: "ustr \<Rightarrow> ustr \<Rightarrow> rat"
  loc_assign :: "cell list \<Rightarrow> cell list"

section \<open>Name cleaning\<close>

definition STOPWORDS :: "ustr list" where
  "STOPWORDS = map u [''hospital'', ''dispensary'', ''clinic'', ''medical'', ''centre'',
     ''center'', ''health'', ''facility'']"

text \<open>
  \<open>re.sub(r"\b(hospital|...|facility)\b", " ", s)\<close> on an ASCII string. Every
  alternative consists of word characters, so a match starts where a maximal run of word
  characters starts and, by the closing \<open>\b\<close>, covers the whole run: each maximal run
  of word characters that is one of the words is replaced by a space.
\<close>

function sub_stopwords :: "ustr \<Rightarrow> ustr" where
  "sub_stopwords [] = []"
| "sub_stopwords (c # cs) =
     (if is_word c then
        (let w = c # takeWhile is_word cs
         in (if w \<in> set STOPWORDS then u '' '' else w) @ sub_stopwords (dropWhile is_word cs))
      else c # sub_stopwords cs)"
  by pat_completeness auto
termination
  by (relation "measure length") (auto simp: length_dropWhile_le less_Suc_eq_le)

definition clean_str :: "pylib \<Rightarrow> ustr \<Rightarrow> ustr" where
  "clean_str L s =
     (let s1 = encode_ascii_ignore (nfkd L s);
          s2 = ascii_lower s1;
          s3 = re_sub_runs (\<lambda>c. \<not> is_az09 c) (u '' '') s2;
          s4 = sub_stopwords s3
      in py_strip (re_sub_runs is_space (u '' '') s4))"

text \<open>\<open>_clean_name\<close>; the argument \<open>None\<close> is Python's \<open>None\<close>.\<close>

definition clean_name :: "pylib \<Rightarrow> ustr option \<Rightarrow> ustr" where
  "clean_name L x = (case x of None \<Rightarrow> [] | Some s \<Rightarrow> clean_str L s)"

section \<open>Tables\<close>

text \<open>
  A frame has its column labels in order and its rows, each with one cell per column;
  the row index is not kept, so \<open>reset_index(drop=True)\<close> changes nothing. A column
  whose cells are all missing is taken to be an object column, as a column of text is.
\<close>

record frame =
  columns :: "ustr list"
  rows :: "cell list list"

text \<open>
  The exceptions of the program. \<open>Unsupported\<close> stands for a call that leaves the part
  of pandas described here (a label that names several columns where a mask is built
  from it, text in a column that is summed, a clash of column names in a merge).
\<close>

datatype error = KeyError | AttributeError | TypeError | ValueError | Unsupported

text \<open>\<open>df.empty\<close>: no column or no row.\<close>

definition df_empty :: "frame \<Rightarrow> bool" where
  "df_empty df \<longleftrightarrow> columns df = [] \<or> rows df = []"

definition cell_at :: "cell list \<Rightarrow> nat \<Rightarrow> cell" where
  "cell_at r i = (if i < length r then r ! i else NA)"

text \<open>
  The positions of a label. \<open>df[name]\<close> is a \<open>Series\<close> when there is one, raises
  \<open>KeyError\<close> when there is none and is a \<open>DataFrame\<close> when there are several.
\<close>

definition positions :: "ustr list \<Rightarrow> ustr \<Rightarrow> nat list" where
  "positions cols name = filter (\<lambda>i. cols ! i = name) [0..<length cols]"

definition column_cells :: "frame \<Rightarrow> nat \<Rightarrow> cell list" where
  "column_cells df i = map (\<lambda>r. cell_at r i) (rows df)"

text \<open>\<open>astype(str)\<close> on one cell: \<open>str(float("nan"))\<close> is \<open>"nan"\<close>.\<close>

definition astype_str :: "pylib \<Rightarrow> cell \<Rightarrow> ustr" where
  "astype_str L c = (case c of NA \<Rightarrow> u ''nan'' | Str s \<Rightarrow> s | Num x \<Rightarrow> py_str L x)"

text \<open>\<open>df[name] = f(df[name])\<close> for the column at position \<open>i\<close>, cell by cell.\<close>

definition map_col :: "nat \<Rightarrow> (cell \<Rightarrow> cell) \<Rightarrow> frame \<Rightarrow> frame" where
  "map_col i f df = df\<lparr>rows := map (\<lambda>r. r[i := f (cell_at r i)]) (rows df)\<rparr>"

text \<open>\<open>df[mask]\<close> for a mask computed row by row.\<close>

definition keep_rows :: "(cell list \<Rightarrow> bool) \<Rightarrow> frame \<Rightarrow> frame" where
  "keep_rows P df = df\<lparr>rows := filter P (rows df)\<rparr>"

text \<open>
  \<open>if name in df.columns: df[name] = f(df[name])\<close>, where \<open>f\<close> works on a
  \<open>Series\<close> and raises \<open>e\<close> on a \<open>DataFrame\<close>.
\<close>

definition on_column :: "ustr \<Rightarrow> error \<Rightarrow> (cell \<Rightarrow> cell) \<Rightarrow> frame \<Rightarrow> error + frame" where
  "on_column name e f df =
     (if name \<in> set (columns df) then
        (case positions (columns df) name of
           [] \<Rightarrow> Inl KeyError
         | [i] \<Rightarrow> Inr (map_col i f df)
         | _ \<Rightarrow> Inl e)
      else Inr df)"

text \<open>Statements in sequence, the first exception ending the run.\<close>

fun run_steps :: "(frame \<Rightarrow> error + frame) list \<Rightarrow> frame \<Rightarrow> error + frame" where
  "run_steps [] df = Inr df"
| "run_steps (f # fs) df = (case f df of Inl e \<Rightarrow> Inl e | Inr d \<Rightarrow> run_steps fs d)"



section \<open>Standardizing a table\<close>

definition MONTH_ORDER :: "ustr list" where
  "MONTH_ORDER = map u [''January'', ''February'', ''March'', ''April'', ''May'', ''June'',
     ''July'', ''August'', ''September'', ''October'', ''November'', ''December'']"

text \<open>
  The renaming that the loop over the column labels builds: a label whose lower-cased,
  stripped form is in a set of synonyms gets the name of the set, any other label is not
  in the mapping and \<open>rename\<close> leaves it.
\<close>

definition canonical :: "pylib \<Rightarrow> ustr \<Rightarrow> ustr" where
  "canonical L c =
     (let lc = py_strip (py_lower L c) in
      if lc \<in> set (map u [''vendor'', ''facility'', ''provider'', ''vendor_name''])
        then u ''vendor_name''
      else if lc \<in> set (map u [''claim'', ''claims'']) then u ''claims''
      else if lc \<in> set (map u [''amount'', ''kes'', ''ksh'']) then u ''amount''
      else if lc \<in> set (map u [''report_month'', ''month'']) then u ''report_month''
      else if lc \<in> set (map u [''report_year'', ''year'']) then u ''report_year''
      else if lc \<in> set (map u [''schedule'', ''batch'']) then u ''schedule''
      else if lc \<in> set (map u [''county'']) then u ''county''
      else if lc \<in> set (map u [''sub_county'', ''subcounty'', ''sub-county''])
        then u ''sub_county''
      else if lc \<in> set (map u [''latitude'', ''lat'']) then u ''latitude''
      else if lc \<in> set (map u [''longitude'', ''lon'', ''lng'']) then u ''longitude''
      else c)"

definition rename_columns :: "pylib \<Rightarrow> frame \<Rightarrow> frame" where
  "rename_columns L df = df\<lparr>columns := map (canonical L) (columns df)\<rparr>"

text \<open>\<open>.astype(str).str.replace(r"\s+", " ", regex=True).str.strip()\<close>\<close>

definition vendor_cell :: "pylib \<Rightarrow> cell \<Rightarrow> cell" where
  "vendor_cell L c = Str (py_strip (re_sub_runs is_space (u '' '') (astype_str L c)))"

text \<open>
  \<open>.astype(str).str.replace(r"[^\d.,-]", "", regex=True).str.replace(",", "",
  regex=False)\<close>, then \<open>pd.to_numeric(errors="coerce")\<close>.
\<close>

definition amount_text :: "pylib \<Rightarrow> ustr \<Rightarrow> ustr" where
  "amount_text L s =
     filter (\<lambda>c. c \<noteq> 44) (filter (\<lambda>c. re_digit L c \<or> c = 46 \<or> c = 44 \<or> c = 45) s)"

definition coerce :: "rat option \<Rightarrow> cell" where
  "coerce x = (case x of None \<Rightarrow> NA | Some v \<Rightarrow> Num v)"

definition amount_cell :: "pylib \<Rightarrow> cell \<Rightarrow> cell" where
  "amount_cell L c = coerce (to_numeric L (amount_text L (astype_str L c)))"

text \<open>\<open>pd.to_numeric(errors="coerce")\<close> on one cell of any column.\<close>

definition numeric_cell :: "pylib \<Rightarrow> cell \<Rightarrow> cell" where
  "numeric_cell L c = (case c of NA \<Rightarrow> NA | Str s \<Rightarrow> coerce (to_numeric L s) | Num x \<Rightarrow> Num x)"

text \<open>
  \<open>pd.to_numeric(df[name], errors="coerce").astype("Int64")\<close>: the cast raises
  \<open>TypeError\<close> when a value is not a whole number, and \<open>to_numeric\<close> raises it on a
  \<open>DataFrame\<close>. The range of 64-bit integers is not modelled.
\<close>

definition integral_cell :: "cell \<Rightarrow> bool" where
  "integral_cell c = (case c of NA \<Rightarrow> True | Str s \<Rightarrow> False | Num x \<Rightarrow> x = of_int \<lfloor>x\<rfloor>)"

definition to_Int64 :: "pylib \<Rightarrow> ustr \<Rightarrow> frame \<Rightarrow> error + frame" where
  "to_Int64 L name df =
     (if name \<in> set (columns df) then
        (case positions (columns df) name of
           [] \<Rightarrow> Inl KeyError
         | [i] \<Rightarrow>
             (let d = map_col i (numeric_cell L) df
              in if list_all integral_cell (column_cells d i) then Inr d else Inl TypeError)
         | _ \<Rightarrow> Inl TypeError)
      else Inr df)"

text \<open>
  \<open>.astype(str).str.title()\<close>, then \<open>.where(isin(MONTH_ORDER))\<close> and the cast to the
  ordered category.
\<close>

definition month_cell :: "pylib \<Rightarrow> cell \<Rightarrow> cell" where
  "month_cell L c =
     (let t = py_title L (astype_str L c) in if t \<in> set MONTH_ORDER then Str t else NA)"

text \<open>\<open>.astype(str).str.strip()\<close>, then \<open>""\<close>, \<open>"nan"\<close> and \<open>"None"\<close> become missing.\<close>

definition county_cell :: "pylib \<Rightarrow> cell \<Rightarrow> cell" where
  "county_cell L c =
     (let t = py_strip (astype_str L c)
      in if t \<in> set (map u ['''', ''nan'', ''None'']) then NA else Str t)"

text \<open>\<open>out[out["vendor_name"].notna() & (out["vendor_name"].str.len() > 0)]\<close>\<close>

definition nonblank :: "cell \<Rightarrow> bool" where
  "nonblank c = (case c of Str s \<Rightarrow> s \<noteq> [] | _ \<Rightarrow> False)"

definition drop_blank_vendors :: "frame \<Rightarrow> error + frame" where
  "drop_blank_vendors df =
     (if u ''vendor_name'' \<in> set (columns df) then
        (case positions (columns df) (u ''vendor_name'') of
           [] \<Rightarrow> Inl KeyError
         | [i] \<Rightarrow> Inr (keep_rows (\<lambda>r. nonblank (cell_at r i)) df)
         | _ \<Rightarrow> Inl AttributeError)
      else Inr df)"

definition standardize_steps :: "pylib \<Rightarrow> (frame \<Rightarrow> error + frame) list" where
  "standardize_steps L =
     [on_column (u ''vendor_name'') AttributeError (vendor_cell L),
      on_column (u ''amount'') AttributeError (amount_cell L),
      to_Int64 L (u ''report_year''),
      on_column (u ''report_month'') AttributeError (month_cell L),
      to_Int64 L (u ''schedule''),
      on_column (u ''county'') AttributeError (county_cell L),
      on_column (u ''sub_county'') AttributeError (county_cell L),
      on_column (u ''latitude'') TypeError (numeric_cell L),
      on_column (u ''longitude'') TypeError (numeric_cell L),
      drop_blank_vendors]"

definition standardize :: "pylib \<Rightarrow> frame \<Rightarrow> error + frame" where
  "standardize L df =
     (if df_empty df then Inr df
      else run_steps (standardize_steps L) (rename_columns L df))"

section \<open>Removing page markers\<close>

text \<open>
  \<open>PAGE_ROW_RE.match(s)\<close> for \<open>^\s*page\s*\d+\<close> with \<open>re.I\<close>. No whitespace
  character matches \<open>p\<close>, so the first \<open>\s*\<close> takes the whole leading run. The
  second \<open>\s*\<close> may give characters back to \<open>\d+\<close>: the pattern matches when a digit
  stands in the whitespace run after the word or right after that run. Under \<open>re.I\<close>
  the letters of \<open>page\<close> match themselves and their capitals only.
\<close>

definition page_row_match :: "pylib \<Rightarrow> ustr \<Rightarrow> bool" where
  "page_row_match L s =
     (case dropWhile is_space s of
        p # a # g # e # rest \<Rightarrow>
          ascii_lower [p, a, g, e] = u ''page'' \<and>
          list_ex (re_digit L) (take (Suc (length (takeWhile is_space rest))) rest)
      | _ \<Rightarrow> False)"

definition remove_page_rows :: "pylib \<Rightarrow> frame \<Rightarrow> error + frame" where
  "remove_page_rows L df =
     (if u ''vendor_name'' \<notin> set (columns df) \<or> df_empty df then Inr df
      else
        (case positions (columns df) (u ''vendor_name'') of
           [] \<Rightarrow> Inl KeyError
         | [i] \<Rightarrow> Inr (keep_rows (\<lambda>r. \<not> page_row_match L (astype_str L (cell_at r i))) df)
         | _ \<Rightarrow> Inl AttributeError))"

section \<open>Enriching with the registry\<close>















section \<open>Filters and totals\<close>

text \<open>The truth value of an optional list: \<open>None\<close> and the empty list are false.\<close>

definition given :: "'a list option \<Rightarrow> bool" where
  "given xs = (case xs of None \<Rightarrow> False | Some l \<Rightarrow> l \<noteq> [])"















section \<open>An instance of the library for the examples\<close>

text \<open>
  The examples are evaluated with the library restricted to ASCII text: NFKD leaves
  ASCII text as it is, \<open>lower\<close> and \<open>title\<close> act on the letters A to Z, the digits are
  0 to 9, \<open>str\<close> prints a whole number, \<open>to_numeric\<close> reads a decimal literal, and the
  score of two names is the normalized Indel similarity of their sorted tokens, from 0
  to 100. The cells assigned from a registry dict are its values.
\<close>

definition is_digit09 :: "nat \<Rightarrow> bool" where
  "is_digit09 c \<longleftrightarrow> 48 \<le> c \<and> c \<le> 57"

fun ascii_title_from :: "bool \<Rightarrow> ustr \<Rightarrow> ustr" where
  "ascii_title_from prev [] = []"
| "ascii_title_from prev (c # cs) =
     (if 65 \<le> c \<and> c \<le> 90 then (if prev then c + 32 else c) # ascii_title_from True cs
      else if 97 \<le> c \<and> c \<le> 122 then (if prev then c else c - 32) # ascii_title_from True cs
      else c # ascii_title_from False cs)"

function digits_of :: "nat \<Rightarrow> ustr" where
  "digits_of n = (if n < 10 then [48 + n] else digits_of (n div 10) @ [48 + n mod 10])"
  by pat_completeness auto
termination
  by (relation "measure id") auto

definition str_whole :: "rat \<Rightarrow> ustr" where
  "str_whole x = (if x < 0 then [45] else []) @ digits_of (nat \<bar>\<lfloor>x\<rfloor>\<bar>)"

definition digits_value :: "ustr \<Rightarrow> nat" where
  "digits_value ds = foldl (\<lambda>a c. 10 * a + (c - 48)) 0 ds"

definition parse_decimal :: "ustr \<Rightarrow> rat option" where
  "parse_decimal s =
     (let neg = (s \<noteq> [] \<and> hd s = 45);
          t = (if neg then tl s else s);
          ip = takeWhile is_digit09 t;
          r = dropWhile is_digit09 t;
          fp = (if r \<noteq> [] \<and> hd r = 46 then tl r else []);
          wellformed = ((r = [] \<or> hd r = 46) \<and> list_all is_digit09 fp \<and> ip @ fp \<noteq> [])
      in if wellformed
         then Some ((if neg then - 1 else 1) * (of_nat (digits_value (ip @ fp)) / 10 ^ length fp))
         else None)"

text \<open>The length of a longest common subsequence, row by row.\<close>

fun lcs_step :: "nat \<Rightarrow> ustr \<Rightarrow> nat list \<Rightarrow> nat \<Rightarrow> nat list" where
  "lcs_step x (y # ys) (d # up # old) left =
     (let v = (if x = y then d + 1 else max up left) in v # lcs_step x ys (up # old) v)"
| "lcs_step x ys old left = []"

definition lcs_length :: "ustr \<Rightarrow> ustr \<Rightarrow> nat" where
  "lcs_length xs ys =
     last (foldl (\<lambda>row x. 0 # lcs_step x ys row 0) (replicate (Suc (length ys)) 0) xs)"

definition indel_ratio :: "ustr \<Rightarrow> ustr \<Rightarrow> rat" where
  "indel_ratio a b =
     (if a = [] \<and> b = [] then 100
      else 100 * (2 * of_nat (lcs_length a b)) / of_nat (length a + length b))"

fun lex_le :: "ustr \<Rightarrow> ustr \<Rightarrow> bool" where
  "lex_le [] ys = True"
| "lex_le (x # xs) [] = False"
| "lex_le (x # xs) (y # ys) = (x < y \<or> (x = y \<and> lex_le xs ys))"

fun insert_sorted :: "ustr \<Rightarrow> ustr list \<Rightarrow> ustr list" where
  "insert_sorted w [] = [w]"
| "insert_sorted w (v # vs) = (if lex_le w v then w # v # vs else v # insert_sorted w vs)"

function split_ws :: "ustr \<Rightarrow> ustr list" where
  "split_ws [] = []"
| "split_ws (c # cs) =
     (if is_space c then split_ws cs
      else (c # takeWhile (\<lambda>x. \<not> is_space x) cs) # split_ws (dropWhile (\<lambda>x. \<not> is_space x) cs))"
  by pat_completeness auto
termination
  by (relation "measure length") (auto simp: length_dropWhile_le less_Suc_eq_le)

fun join_sp :: "ustr list \<Rightarrow> ustr" where
  "join_sp [] = []"
| "join_sp [w] = w"
| "join_sp (w # ws) = w @ 32 # join_sp ws"

definition sorted_tokens :: "ustr \<Rightarrow> ustr" where
  "sorted_tokens s = join_sp (foldr insert_sorted (split_ws s) [])"

definition ascii_lib :: pylib where
  "ascii_lib =
     \<lparr>nfkd = id,
      py_lower = ascii_lower,
      py_title = ascii_title_from False,
      re_digit = is_digit09,
      py_str = str_whole,
      to_numeric = parse_decimal,
      token_sort_ratio = (\<lambda>a b. indel_ratio (sorted_tokens a) (sorted_tokens b)),
      loc_assign = id\<rparr>"

section \<open>Notions of the specification\<close>



text \<open>
  The page marker as the specification words it: optional whitespace, the word page in
  any case, optional whitespace, one or more digits, at the start of the string. A row is
  a page row when its vendor name, as text, starts with a marker.
\<close>

definition page_marker :: "pylib \<Rightarrow> ustr \<Rightarrow> bool" where
  "page_marker L s \<longleftrightarrow>
     (\<exists>ws1 lit ws2 ds rest.
        s = ws1 @ lit @ ws2 @ ds @ rest \<and>
        list_all is_space ws1 \<and> ascii_lower lit = u ''page'' \<and> list_all is_space ws2 \<and>
        ds \<noteq> [] \<and> list_all (re_digit L) ds)"

definition is_page_row :: "pylib \<Rightarrow> frame \<Rightarrow> cell list \<Rightarrow> bool" where
  "is_page_row L df r \<longleftrightarrow>
     (\<exists>i. positions (columns df) (u ''vendor_name'') = [i] \<and>
          page_marker L (astype_str L (cell_at r i)))"






text \<open>
  The renaming as a lookup table from the recognized headers to the names of the schema:
  a label whose lower-cased, trimmed form is in the table gets the name there, any other
  label stays.
\<close>

definition SYNONYMS :: "(ustr \<times> ustr list) list" where
  "SYNONYMS =
     [(u ''vendor_name'', map u [''vendor'', ''facility'', ''provider'', ''vendor_name'']),
      (u ''claims'', map u [''claim'', ''claims'']),
      (u ''amount'', map u [''amount'', ''kes'', ''ksh'']),
      (u ''report_month'', map u [''report_month'', ''month'']),
      (u ''report_year'', map u [''report_year'', ''year'']),
      (u ''schedule'', map u [''schedule'', ''batch'']),
      (u ''county'', map u [''county'']),
      (u ''sub_county'', map u [''sub_county'', ''subcounty'', ''sub-county'']),
      (u ''latitude'', map u [''latitude'', ''lat'']),
      (u ''longitude'', map u [''longitude'', ''lon'', ''lng''])]"

definition rename_label :: "pylib \<Rightarrow> ustr \<Rightarrow> ustr" where
  "rename_label L c =
     (case find (\<lambda>(name, syns). py_strip (py_lower L c) \<in> set syns) SYNONYMS of
        None \<Rightarrow> c
      | Some (name, syns) \<Rightarrow> name)"

text \<open>
  A frame is well formed when every row has one cell per column. \<open>std_cell\<close> is what
  standardizing does to a cell under a label, \<open>vendor_kept\<close> the test on the cleaned
  vendor name that keeps a row, and two frames differ only at a position when they have
  the same labels and the same cells everywhere else.
\<close>

definition wf_frame :: "frame \<Rightarrow> bool" where
  "wf_frame df \<longleftrightarrow> (\<forall>r \<in> set (rows df). length r = length (columns df))"












section \<open>Auxiliary notions used in the proofs\<close>

text \<open>
  The tokens of a string over \<open>[a-z0-9 ]\<close> are its maximal runs without a space;
  \<open>unwords\<close> joins tokens with single spaces.
\<close>

function tokens :: "ustr \<Rightarrow> ustr list" where
  "tokens [] = []"
| "tokens (c # cs) =
     (if c = 32 then tokens cs
      else (c # takeWhile (\<lambda>x. x \<noteq> 32) cs) # tokens (dropWhile (\<lambda>x. x \<noteq> 32) cs))"
  by pat_completeness auto
termination
  by (relation "measure length") (auto simp: length_dropWhile_le less_Suc_eq_le)

fun unwords :: "ustr list \<Rightarrow> ustr" where
  "unwords [] = []"
| "unwords [w] = w"
| "unwords (w # ws) = w @ 32 # unwords ws"

fun nodouble :: "ustr \<Rightarrow> bool" where
  "nodouble (x # y # zs) \<longleftrightarrow> \<not> (x = 32 \<and> y = 32) \<and> nodouble (y # zs)"
| "nodouble _ \<longleftrightarrow> True"

definition az09sp :: "ustr \<Rightarrow> bool" where
  "az09sp s \<longleftrightarrow> (\<forall>c \<in> set s. is_az09 c \<or> c = 32)"

definition tight :: "ustr \<Rightarrow> bool" where
  "tight s \<longleftrightarrow> nodouble s \<and> (s \<noteq> [] \<longrightarrow> hd s \<noteq> 32 \<and> last s \<noteq> 32)"

abbreviation collapse_ws :: "ustr \<Rightarrow> ustr" where "collapse_ws \<equiv> re_sub_runs is_space [32]"

definition sp_start :: "ustr \<Rightarrow> bool" where
  "sp_start r \<longleftrightarrow> r = [] \<or> hd r = 32"

text \<open>
  Applying a function of the label to every cell, and the function that acts under one
  label only.
\<close>

definition cellwise :: "(ustr \<Rightarrow> cell \<Rightarrow> cell) \<Rightarrow> frame \<Rightarrow> frame" where
  "cellwise T df = df\<lparr>rows := map (\<lambda>r. map2 T (columns df) r) (rows df)\<rparr>"

definition only :: "ustr \<Rightarrow> (cell \<Rightarrow> cell) \<Rightarrow> ustr \<Rightarrow> cell \<Rightarrow> cell" where
  "only name f n = (if n = name then f else id)"

section \<open>Facts about tables\<close>

lemma positions_Nil_iff: "positions cols name = [] \<longleftrightarrow> name \<notin> set cols"
  by (auto simp: positions_def filter_empty_conv in_set_conv_nth)

lemma positions_distinct:
  assumes "distinct cols" "name \<in> set cols"
  shows "\<exists>i. positions cols name = [i] \<and> i < length cols \<and> cols ! i = name"
proof -
  from assms(2) obtain i where i: "i < length cols" "cols ! i = name"
    by (auto simp: in_set_conv_nth)
  have "filter (\<lambda>k. cols ! k = name) [0..<length cols] = [i]"
  proof -
    have "\<And>k. k < length cols \<Longrightarrow> cols ! k = name \<longleftrightarrow> k = i"
      using assms(1) i by (auto simp: nth_eq_iff_index_eq)
    then have "filter (\<lambda>k. cols ! k = name) [0..<length cols] = filter (\<lambda>k. k = i) [0..<length cols]"
      by (intro filter_cong) auto
    also have "\<dots> = [i]" using i(1)
      by (induction cols rule: rev_induct) (auto simp: less_Suc_eq filter_empty_conv)
    finally show ?thesis .
  qed
  with i show ?thesis by (auto simp: positions_def)
qed

lemma keep_rows_all: "(\<And>r. r \<in> set (rows df) \<Longrightarrow> P r) \<Longrightarrow> keep_rows P df = df"
  by (simp add: keep_rows_def filter_id_conv)

lemma columns_keep_rows [simp]: "columns (keep_rows P df) = columns df"
  by (simp add: keep_rows_def)

lemma rows_keep_rows [simp]: "rows (keep_rows P df) = filter P (rows df)"
  by (simp add: keep_rows_def)


lemma keep_rows_True [simp]: "keep_rows (\<lambda>r. True) df = df"
  by (simp add: keep_rows_def)


section \<open>Name cleaning is idempotent\<close>

lemma u_space [simp]: "u '' '' = [32]" by (simp add: u_def)

lemma is_space_32 [simp]: "is_space 32" by (simp add: is_space_def)
lemma is_az09_not_space: "is_az09 c \<Longrightarrow> \<not> is_space c" 
  by (auto simp: is_az09_def is_space_def)
lemma is_az09_word: "is_az09 c \<Longrightarrow> is_word c" by (simp add: is_word_def)
lemma not_word_32 [simp]: "\<not> is_word 32" by (simp add: is_word_def is_az09_def)
lemma not_az09_32 [simp]: "\<not> is_az09 32" by (simp add: is_az09_def)

lemma az09sp_Cons [simp]: "az09sp (c # cs) \<longleftrightarrow> (is_az09 c \<or> c = 32) \<and> az09sp cs" by (auto simp: az09sp_def)
lemma az09sp_Nil [simp]: "az09sp []" by (simp add: az09sp_def)
lemma az09sp_append [simp]: "az09sp (a @ b) \<longleftrightarrow> az09sp a \<and> az09sp b" by (auto simp: az09sp_def)

lemma az09sp_space_iff: "az09sp s \<Longrightarrow> c \<in> set s \<Longrightarrow> is_space c \<longleftrightarrow> c = 32"
  by (auto simp: az09sp_def dest: is_az09_not_space)
lemma az09sp_word_iff: "az09sp s \<Longrightarrow> c \<in> set s \<Longrightarrow> is_word c \<longleftrightarrow> c \<noteq> 32"
  by (auto simp: az09sp_def dest: is_az09_word)
lemma az09sp_az09_iff: "az09sp s \<Longrightarrow> c \<in> set s \<Longrightarrow> is_az09 c \<longleftrightarrow> c \<noteq> 32"
  by (auto simp: az09sp_def)

lemma az09sp_takeWhile_word: "az09sp s \<Longrightarrow> takeWhile is_word s = takeWhile (\<lambda>x. x \<noteq> 32) s"
  by (rule takeWhile_cong) (auto simp: az09sp_word_iff)
lemma az09sp_dropWhile_word: "az09sp s \<Longrightarrow> dropWhile is_word s = dropWhile (\<lambda>x. x \<noteq> 32) s"
  by (rule dropWhile_cong) (auto simp: az09sp_word_iff)
lemma az09sp_dropWhile_space: "az09sp s \<Longrightarrow> dropWhile is_space s = dropWhile (\<lambda>x. x = 32) s"
  by (rule dropWhile_cong) (auto simp: az09sp_space_iff)

lemma az09sp_dropWhile: "az09sp s \<Longrightarrow> az09sp (dropWhile P s)"
  by (auto simp: az09sp_def dest: set_dropWhileD)
lemma az09sp_takeWhile: "az09sp s \<Longrightarrow> az09sp (takeWhile P s)"
  by (auto simp: az09sp_def dest: set_takeWhileD)

lemma sp_start_dropWhile [simp]: "sp_start (dropWhile (\<lambda>x. x \<noteq> 32) s)"
  unfolding sp_start_def using hd_dropWhile[of "\<lambda>x. x \<noteq> 32" s] by auto

lemma tokens_word_append:
  assumes "32 \<notin> set w" "sp_start r"
  shows "tokens ((c # w) @ r) = (if c = 32 then tokens (w @ r) else (c # w) # tokens r)"
proof -
  have 1: "takeWhile (\<lambda>x. x \<noteq> 32) (w @ r) = w @ takeWhile (\<lambda>x. x \<noteq> 32) r"
    using assms(1) by (intro takeWhile_append2) auto
  have 2: "dropWhile (\<lambda>x. x \<noteq> 32) (w @ r) = dropWhile (\<lambda>x. x \<noteq> 32) r"
    using assms(1) by (intro dropWhile_append2) auto
  have 3: "takeWhile (\<lambda>x. x \<noteq> 32) r = []" "dropWhile (\<lambda>x. x \<noteq> 32) r = r"
    using assms(2) by (cases r; simp add: sp_start_def)+
  show ?thesis by (simp add: 1 2 3)
qed

lemma tokens_dropWhile_space: "tokens (dropWhile (\<lambda>x. x = 32) s) = tokens s"
  by (induction s) auto

lemma sub_stopwords_sp_start: "sp_start r \<Longrightarrow> sp_start (sub_stopwords r)"
  by (cases r) (auto simp: sp_start_def)

lemma az09sp_sub_stopwords: "az09sp s \<Longrightarrow> az09sp (sub_stopwords s)"
proof (induction s rule: sub_stopwords.induct)
  case 1
  then show ?case by simp
next
  case (2 c cs)
  then show ?case
    by (auto simp: Let_def az09sp_dropWhile az09sp_takeWhile)
qed

lemma tokens_sub_stopwords:
  "az09sp s \<Longrightarrow> tokens (sub_stopwords s) = filter (\<lambda>w. w \<notin> set STOPWORDS) (tokens s)"
proof (induction s rule: sub_stopwords.induct)
  case 1
  then show ?case by simp
next
  case (2 c cs)
  show ?case
  proof (cases "is_word c")
    case True
    then have c: "c \<noteq> 32" by auto
    from "2.prems" have hcs: "az09sp cs" by simp
    let ?w = "takeWhile (\<lambda>x. x \<noteq> 32) cs"
    let ?r = "dropWhile (\<lambda>x. x \<noteq> 32) cs"
    have tw: "takeWhile is_word cs = ?w" and dw: "dropWhile is_word cs = ?r"
      using hcs by (simp_all add: az09sp_takeWhile_word az09sp_dropWhile_word)
    have IH: "tokens (sub_stopwords ?r) = filter (\<lambda>w. w \<notin> set STOPWORDS) (tokens ?r)"
      using "2.IH"(1)[OF True refl] hcs by (simp add: dw az09sp_dropWhile)
    have w32: "32 \<notin> set ?w" by (auto dest: set_takeWhileD)
    have sp: "sp_start (sub_stopwords ?r)" by (simp add: sub_stopwords_sp_start)
    have "tokens ((c # ?w) @ sub_stopwords ?r) = (c # ?w) # tokens (sub_stopwords ?r)"
      using tokens_word_append[OF w32 sp, of c] c by simp
    then show ?thesis
      using True c IH by (simp add: Let_def tw dw)
  next
    case False
    with "2.prems" have c: "c = 32" by (auto dest: is_az09_word)
    from "2.prems" have hcs: "az09sp cs" by simp
    show ?thesis using False c "2.IH"(2)[OF False] hcs by simp
  qed
qed

lemma g_nospace_append: "\<forall>x\<in>set w. \<not> is_space x \<Longrightarrow> collapse_ws (w @ r) = w @ collapse_ws r"
  by (induction w) auto

lemma g_sp_start: "sp_start r \<Longrightarrow> sp_start (collapse_ws r)"
  by (cases r) (auto simp: sp_start_def)

lemma tokens_g: "az09sp y \<Longrightarrow> tokens (collapse_ws y) = tokens y"
proof (induction y rule: measure_induct_rule[of length])
  case (less y)
  show ?case
  proof (cases y)
    case Nil
    then show ?thesis by simp
  next
    case (Cons c cs)
    with less.prems have hcs: "az09sp cs" and cc: "is_az09 c \<or> c = 32" by simp_all
    show ?thesis
    proof (cases "c = 32")
      case True
      let ?r = "dropWhile is_space cs"
      have r: "?r = dropWhile (\<lambda>x. x = 32) cs" using hcs by (rule az09sp_dropWhile_space)
      have "length ?r < length y" using Cons by (simp add: length_dropWhile_le less_Suc_eq_le)
      then have "tokens (collapse_ws ?r) = tokens ?r" using less.IH hcs by (simp add: az09sp_dropWhile)
      then show ?thesis using Cons True by (simp add: r tokens_dropWhile_space)
    next
      case False
      let ?w = "takeWhile (\<lambda>x. x \<noteq> 32) cs"
      let ?r = "dropWhile (\<lambda>x. x \<noteq> 32) cs"
      have y: "y = (c # ?w) @ ?r" using Cons by simp
      have nosp: "\<forall>x\<in>set (c # ?w). \<not> is_space x"
        using cc False hcs by (auto dest!: set_takeWhileD simp: az09sp_space_iff is_az09_not_space)
      have gy: "collapse_ws y = (c # ?w) @ collapse_ws ?r"
        using g_nospace_append[OF nosp, of ?r] y by simp
      have "length ?r < length y" using Cons by (simp add: length_dropWhile_le less_Suc_eq_le)
      then have IH: "tokens (collapse_ws ?r) = tokens ?r" using less.IH hcs by (simp add: az09sp_dropWhile)
      have w32: "32 \<notin> set ?w" by (auto dest: set_takeWhileD)
      have "tokens ((c # ?w) @ collapse_ws ?r) = (c # ?w) # tokens (collapse_ws ?r)"
        using tokens_word_append[OF w32 g_sp_start[OF sp_start_dropWhile], of c cs] False by simp
      then show ?thesis using gy IH Cons False by simp
    qed
  qed
qed

lemma takeWhile_snoc_not: "\<not> P x \<Longrightarrow> takeWhile P (xs @ [x]) = takeWhile P xs"
  by (induction xs) auto

lemma dropWhile_snoc_not: "\<not> P x \<Longrightarrow> dropWhile P (xs @ [x]) = dropWhile P xs @ [x]"
  by (induction xs) auto

lemma tokens_snoc_space: "tokens (z @ [32]) = tokens z"
proof (induction z rule: tokens.induct)
  case 1
  then show ?case by simp
next
  case (2 c cs)
  then show ?case by (simp add: takeWhile_snoc_not dropWhile_snoc_not)
qed

lemma tokens_append_spaces: "\<forall>x\<in>set t. x = 32 \<Longrightarrow> tokens (a @ t) = tokens a"
proof (induction t rule: rev_induct)
  case Nil
  then show ?case by simp
next
  case (snoc x xs)
  then have "tokens ((a @ xs) @ [32]) = tokens a" by (simp only: tokens_snoc_space) simp
  with snoc show ?case by simp
qed

lemma tokens_py_strip: "az09sp y \<Longrightarrow> tokens (py_strip y) = tokens y"
proof -
  assume az09sp: "az09sp y"
  let ?z = "dropWhile is_space y"
  have hz: "az09sp ?z" using az09sp by (rule az09sp_dropWhile)
  have z: "tokens ?z = tokens y"
    using az09sp by (simp add: az09sp_dropWhile_space tokens_dropWhile_space)
  have split: "?z = rev (dropWhile is_space (rev ?z)) @ rev (takeWhile is_space (rev ?z))"
    by (metis rev_append rev_rev_ident takeWhile_dropWhile_id)
  have "\<forall>x\<in>set (rev (takeWhile is_space (rev ?z))). x = 32"
    using hz by (auto dest!: set_takeWhileD simp: az09sp_space_iff)
  then have "tokens (rev (dropWhile is_space (rev ?z)) @ rev (takeWhile is_space (rev ?z)))
      = tokens (rev (dropWhile is_space (rev ?z)))"
    by (rule tokens_append_spaces)
  with split z show ?thesis by (simp add: py_strip_def)
qed

lemma nodouble_Cons: "nodouble (x # z) \<longleftrightarrow> (x = 32 \<longrightarrow> z \<noteq> [] \<longrightarrow> hd z \<noteq> 32) \<and> nodouble z"
  by (cases z) auto

lemma nodouble_tl: "nodouble (x # z) \<Longrightarrow> nodouble z"
  by (simp add: nodouble_Cons)

lemma g_hd: "r \<noteq> [] \<Longrightarrow> \<not> is_space (hd r) \<Longrightarrow> collapse_ws r \<noteq> [] \<and> hd (collapse_ws r) = hd r"
  by (cases r) auto

lemma g_Nil_iff: "collapse_ws r = [] \<longleftrightarrow> r = []"
  by (cases r) auto

lemma nodouble_g: "nodouble (collapse_ws y)"
proof (induction y rule: measure_induct_rule[of length])
  case (less y)
  show ?case
  proof (cases y)
    case Nil
    then show ?thesis by simp
  next
    case (Cons c cs)
    show ?thesis
    proof (cases "is_space c")
      case True
      let ?r = "dropWhile is_space cs"
      have "length ?r < length y" using Cons by (simp add: length_dropWhile_le less_Suc_eq_le)
      then have IH: "nodouble (collapse_ws ?r)" by (rule less.IH)
      have "collapse_ws ?r \<noteq> [] \<longrightarrow> hd (collapse_ws ?r) \<noteq> 32"
      proof
        assume "collapse_ws ?r \<noteq> []"
        then have ne: "?r \<noteq> []" by (simp add: g_Nil_iff)
        then have "\<not> is_space (hd ?r)" by (rule hd_dropWhile)
        with ne have "hd (collapse_ws ?r) = hd ?r" "\<not> is_space (hd ?r)" by (simp_all add: g_hd)
        then show "hd (collapse_ws ?r) \<noteq> 32" by auto
      qed
      with IH True Cons show ?thesis by (simp add: nodouble_Cons)
    next
      case False
      then have "c \<noteq> 32" by auto
      moreover have "nodouble (collapse_ws cs)" using Cons by (intro less.IH) simp
      ultimately show ?thesis using Cons False by (simp add: nodouble_Cons)
    qed
  qed
qed

lemma nodouble_dropWhile: "nodouble s \<Longrightarrow> nodouble (dropWhile P s)"
  by (induction s) (auto dest: nodouble_tl)

lemma nodouble_prefix: "nodouble (a @ b) \<Longrightarrow> nodouble a"
proof (induction a)
  case Nil
  then show ?case by simp
next
  case (Cons x a)
  then show ?case by (cases a) (auto simp: nodouble_Cons)
qed

lemma tight_py_strip_g: "tight (py_strip (collapse_ws y))"
proof -
  let ?z = "dropWhile is_space (collapse_ws y)"
  let ?t = "rev (dropWhile is_space (rev ?z))"
  have split: "?z = ?t @ rev (takeWhile is_space (rev ?z))"
    by (metis rev_append rev_rev_ident takeWhile_dropWhile_id)
  have ndz: "nodouble ?z" by (intro nodouble_dropWhile nodouble_g)
  then have ndt: "nodouble ?t" using split nodouble_prefix by metis
  have "hd ?t \<noteq> 32 \<and> last ?t \<noteq> 32" if ne: "?t \<noteq> []"
  proof
    have zne: "?z \<noteq> []"
    proof
      assume "?z = []"
      then have "?t = []" by (simp only: rev.simps dropWhile.simps)
      with ne show False by blast
    qed
    then have "\<not> is_space (hd ?z)" by (rule hd_dropWhile)
    moreover have "hd ?z = hd ?t" using split ne by (metis hd_append2)
    ultimately show "hd ?t \<noteq> 32" by auto
    from ne have "dropWhile is_space (rev ?z) \<noteq> []" by simp
    then have "\<not> is_space (hd (dropWhile is_space (rev ?z)))" by (rule hd_dropWhile)
    moreover have "last ?t = hd (dropWhile is_space (rev ?z))" using ne by (simp add: last_rev)
    ultimately show "last ?t \<noteq> 32" by auto
  qed
  with ndt show ?thesis by (simp add: tight_def py_strip_def)
qed

lemma unwords_tokens_tight: "tight t \<Longrightarrow> unwords (tokens t) = t"
proof (induction t rule: measure_induct_rule[of length])
  case (less t)
  show ?case
  proof (cases t)
    case Nil
    then show ?thesis by simp
  next
    case (Cons c cs)
    with less.prems have c: "c \<noteq> 32" by (simp add: tight_def)
    let ?w = "takeWhile (\<lambda>x. x \<noteq> 32) cs"
    let ?r = "dropWhile (\<lambda>x. x \<noteq> 32) cs"
    have t: "t = (c # ?w) @ ?r" using Cons by simp
    have tok: "tokens t = (c # ?w) # tokens ?r" using Cons c by simp
    show ?thesis
    proof (cases ?r)
      case Nil
      have "t = c # ?w" using t unfolding Nil by simp
      moreover have "unwords (tokens t) = c # ?w" using tok unfolding Nil by simp
      ultimately show ?thesis by simp
    next
      case (Cons x r')
      have x: "x = 32" using hd_dropWhile[of "\<lambda>x. x \<noteq> 32" cs] Cons by simp
      have nd: "nodouble (x # r')"
        using less.prems local.Cons \<open>t = c # cs\<close> nodouble_dropWhile[of cs "\<lambda>x. x \<noteq> 32"]
        by (auto simp: tight_def dest: nodouble_tl)
      have lastt: "last t \<noteq> 32" using less.prems \<open>t = c # cs\<close> by (simp add: tight_def)
      have "last t = last (x # r')" using t Cons by (metis last_appendR list.distinct(1))
      with lastt x have r'ne: "r' \<noteq> []" by auto
      with \<open>last t = last (x # r')\<close> lastt have lr: "last r' \<noteq> 32" by simp
      from nd x r'ne have hr: "hd r' \<noteq> 32" by (simp add: nodouble_Cons)
      have tr: "tight r'" using nd hr lr by (auto simp: tight_def dest: nodouble_tl)
      have "length r' < length t"
        using t Cons by (metis add_Suc_right length_Cons length_append less_add_Suc2 trans_less_add2 lessI)
      then have IH: "unwords (tokens r') = r'" using less.IH tr by blast
      have "tokens r' \<noteq> []" using r'ne hr by (cases r') auto
      then obtain a as where as: "tokens r' = a # as" by (cases "tokens r'") auto
      have "tokens ?r = tokens r'" using Cons x by simp
      then have "unwords (tokens t) = (c # ?w) @ 32 # unwords (tokens r')"
        using tok as by simp
      then show ?thesis using IH t Cons x by simp
    qed
  qed
qed

lemma az09sp_re_sub_runs: "az09sp y \<Longrightarrow> az09sp (re_sub_runs C [32] y)"
proof (induction y rule: measure_induct_rule[of length])
  case (less y)
  show ?case
  proof (cases y)
    case Nil
    then show ?thesis by simp
  next
    case (Cons c cs)
    have "length (dropWhile C cs) < length y" using Cons by (simp add: length_dropWhile_le less_Suc_eq_le)
    then have "az09sp (re_sub_runs C [32] (dropWhile C cs))"
      using less.IH less.prems Cons by (simp add: az09sp_dropWhile)
    moreover have "az09sp (re_sub_runs C [32] cs)" using less.IH less.prems Cons by simp
    ultimately show ?thesis using Cons less.prems by simp
  qed
qed

lemma collapse_strip_tokens: "az09sp y \<Longrightarrow> py_strip (collapse_ws y) = unwords (tokens y)"
proof -
  assume az09sp: "az09sp y"
  have hg: "az09sp (collapse_ws y)" using az09sp by (rule az09sp_re_sub_runs)
  have "unwords (tokens (py_strip (collapse_ws y))) = py_strip (collapse_ws y)"
    by (rule unwords_tokens_tight[OF tight_py_strip_g])
  moreover have "tokens (py_strip (collapse_ws y)) = tokens y"
    using az09sp hg by (simp add: tokens_py_strip tokens_g)
  ultimately show ?thesis by simp
qed

lemma az09sp_step3: "az09sp (re_sub_runs (\<lambda>c. \<not> is_az09 c) [32] s)"
proof (induction s rule: measure_induct_rule[of length])
  case (less s)
  show ?case
  proof (cases s)
    case Nil
    then show ?thesis by simp
  next
    case (Cons c cs)
    have "length (dropWhile (\<lambda>c. \<not> is_az09 c) cs) < length s"
      using Cons by (simp add: length_dropWhile_le less_Suc_eq_le)
    then have "az09sp (re_sub_runs (\<lambda>c. \<not> is_az09 c) [32] (dropWhile (\<lambda>c. \<not> is_az09 c) cs))"
      by (rule less.IH)
    moreover have "az09sp (re_sub_runs (\<lambda>c. \<not> is_az09 c) [32] cs)" using less.IH Cons by simp
    ultimately show ?thesis using Cons by simp
  qed
qed

lemma step3_id: "az09sp t \<Longrightarrow> nodouble t \<Longrightarrow> re_sub_runs (\<lambda>c. \<not> is_az09 c) [32] t = t"
proof (induction t)
  case Nil
  then show ?case by simp
next
  case (Cons c cs)
  then have IH: "re_sub_runs (\<lambda>c. \<not> is_az09 c) [32] cs = cs"
    by (auto dest: nodouble_tl)
  show ?case
  proof (cases "is_az09 c")
    case True
    then show ?thesis using IH by simp
  next
    case False
    with Cons.prems have c: "c = 32" by simp
    have "dropWhile (\<lambda>c. \<not> is_az09 c) cs = cs"
    proof (cases cs)
      case Nil
      then show ?thesis by simp
    next
      case (Cons d ds)
      with Cons.prems c \<open>az09sp (c # cs)\<close> \<open>nodouble (c # cs)\<close> have "is_az09 d"
        by (auto simp: nodouble_Cons)
      then show ?thesis using Cons by simp
    qed
    then show ?thesis using False c IH by simp
  qed
qed

lemma az09sp_ascii_lower: "az09sp t \<Longrightarrow> ascii_lower t = t"
  by (auto simp: ascii_lower_def az09sp_def is_az09_def intro!: map_idI)

lemma az09sp_encode: "az09sp t \<Longrightarrow> encode_ascii_ignore t = t"
  by (auto simp: encode_ascii_ignore_def az09sp_def is_az09_def filter_id_conv)

lemma az09sp_rev: "az09sp (rev s) = az09sp s" by (simp add: az09sp_def)

lemma az09sp_py_strip: "az09sp s \<Longrightarrow> az09sp (py_strip s)"
  by (simp add: py_strip_def az09sp_rev az09sp_dropWhile)

lemma az09sp_ascii: "az09sp t \<Longrightarrow> \<forall>c\<in>set t. c < 128"
  by (auto simp: az09sp_def is_az09_def)

lemma clean_str_tokens:
  "clean_str L s = unwords (filter (\<lambda>w. w \<notin> set STOPWORDS)
     (tokens (re_sub_runs (\<lambda>c. \<not> is_az09 c) [32] (ascii_lower (encode_ascii_ignore (nfkd L s))))))"
  by (simp add: clean_str_def Let_def collapse_strip_tokens az09sp_sub_stopwords az09sp_step3
      tokens_sub_stopwords)

lemma clean_str_fixed:
  assumes ascii: "\<forall>s. (\<forall>c\<in>set s. c < 128) \<longrightarrow> nfkd L s = s"
  shows "clean_str L (clean_str L s) = clean_str L s"
proof -
  let ?s3 = "re_sub_runs (\<lambda>c. \<not> is_az09 c) [32] (ascii_lower (encode_ascii_ignore (nfkd L s)))"
  let ?s4 = "sub_stopwords ?s3"
  let ?t = "clean_str L s"
  have t: "?t = py_strip (collapse_ws ?s4)" by (simp add: clean_str_def Let_def)
  have h4: "az09sp ?s4" by (simp add: az09sp_sub_stopwords az09sp_step3)
  have tight: "tight ?t" unfolding t by (rule tight_py_strip_g)
  have ht: "az09sp ?t" unfolding t by (intro az09sp_py_strip az09sp_re_sub_runs h4)
  have tok: "tokens ?t = filter (\<lambda>w. w \<notin> set STOPWORDS) (tokens ?s3)"
    unfolding t using h4 by (simp add: tokens_py_strip az09sp_re_sub_runs tokens_g tokens_sub_stopwords az09sp_step3)
  have "nfkd L ?t = ?t" using ascii az09sp_ascii[OF ht] by blast
  then have "re_sub_runs (\<lambda>c. \<not> is_az09 c) [32] (ascii_lower (encode_ascii_ignore (nfkd L ?t))) = ?t"
    using ht tight by (simp add: az09sp_encode az09sp_ascii_lower step3_id tight_def)
  then have "clean_str L ?t = unwords (filter (\<lambda>w. w \<notin> set STOPWORDS) (tokens ?t))"
    by (simp add: clean_str_tokens[of L ?t])
  also have "\<dots> = unwords (tokens ?t)" by (simp add: tok)
  also have "\<dots> = ?t" using tight by (rule unwords_tokens_tight)
  finally show ?thesis .
qed

text \<open>
  Claim C2. The name canonicalizer is idempotent: for every string, and for \<open>None\<close>,
  cleaning the cleaned name returns it unchanged. The one fact used about the library is
  that NFKD normalization leaves an ASCII string as it is.
\<close>

theorem clean_name_idempotent:
  assumes "\<forall>s. (\<forall>c\<in>set s. c < 128) \<longrightarrow> nfkd L s = s"
  shows "clean_name L (Some (clean_name L x)) = clean_name L x"
proof (cases x)
  case None
  have "clean_str L [] = []" using assms by (simp add: clean_str_def encode_ascii_ignore_def ascii_lower_def py_strip_def)
  then show ?thesis using None by (simp add: clean_name_def)
next
  case (Some s)
  then show ?thesis using clean_str_fixed[OF assms] by (simp add: clean_name_def)
qed

lemmas clean_eval =
  clean_name_def clean_str_def ascii_lib_def u_def encode_ascii_ignore_def ascii_lower_def
  is_az09_def is_word_def is_space_def STOPWORDS_def py_strip_def Let_def

theorem clean_name_idempotent_witness:
  "clean_name ascii_lib (Some (u ''St. Mary's Hospital, Nairobi'')) = u ''st mary s nairobi'' \<and>
   clean_name ascii_lib (Some (u ''st mary s nairobi'')) = u ''st mary s nairobi''"
proof -
  have h: "\<forall>s. (\<forall>c\<in>set s. c < 128) \<longrightarrow> nfkd ascii_lib s = s"
    by (simp add: ascii_lib_def)
  have e: "clean_name ascii_lib (Some (u ''St. Mary's Hospital, Nairobi'')) = u ''st mary s nairobi''"
    by (simp add: clean_eval)
  show ?thesis
    using e clean_name_idempotent[OF h, of "Some (u ''St. Mary's Hospital, Nairobi'')"] by simp
qed

section \<open>Totals\<close>





section \<open>The junk row filter\<close>

lemma u_page: "u ''page'' = [112, 97, 103, 101]" by (simp add: u_def)

lemma lower_page_iff:
  "ascii_lower lit = [112, 97, 103, 101] \<longleftrightarrow>
   (\<exists>p a g e. lit = [p, a, g, e] \<and> (p = 112 \<or> p = 80) \<and> (a = 97 \<or> a = 65) \<and>
      (g = 103 \<or> g = 71) \<and> (e = 101 \<or> e = 69))"
proof
  assume h: "ascii_lower lit = [112, 97, 103, 101]"
  then have "length (ascii_lower lit) = 4" by simp
  then have "length lit = 4" by (simp add: ascii_lower_def)
  then obtain p a g e where lit: "lit = [p, a, g, e]"
    by (auto simp: length_Suc_conv numeral_eq_Suc)
  with h show "\<exists>p a g e. lit = [p, a, g, e] \<and> (p = 112 \<or> p = 80) \<and> (a = 97 \<or> a = 65) \<and>
      (g = 103 \<or> g = 71) \<and> (e = 101 \<or> e = 69)"
    by (auto simp: ascii_lower_def split: if_splits)
next
  assume "\<exists>p a g e. lit = [p, a, g, e] \<and> (p = 112 \<or> p = 80) \<and> (a = 97 \<or> a = 65) \<and>
      (g = 103 \<or> g = 71) \<and> (e = 101 \<or> e = 69)"
  then show "ascii_lower lit = [112, 97, 103, 101]"
    by (auto simp: ascii_lower_def)
qed

lemma page_letter_not_space: "p = 112 \<or> p = 80 \<Longrightarrow> \<not> is_space p"
  by (auto simp: is_space_def)

lemma page_row_match_marker: "page_row_match L s \<longleftrightarrow> page_marker L s"
proof
  assume m: "page_row_match L s"
  then obtain p a g e rest where d: "dropWhile is_space s = p # a # g # e # rest"
    and lit: "ascii_lower [p, a, g, e] = u ''page''"
    and ex: "list_ex (re_digit L) (take (Suc (length (takeWhile is_space rest))) rest)"
    by (auto simp: page_row_match_def split: list.splits)
  from ex obtain k where k: "k < length rest" "k \<le> length (takeWhile is_space rest)" "re_digit L (rest ! k)"
    by (auto simp: list_ex_iff in_set_conv_nth less_Suc_eq_le)
  have sp: "list_all is_space (take k rest)"
  proof -
    have "take k rest = take k (takeWhile is_space rest)"
      using k(2) by (metis takeWhile_eq_take take_take min.absorb1)
    then show ?thesis
      by (auto simp: list_all_iff dest!: in_set_takeD set_takeWhileD)
  qed
  have "s = takeWhile is_space s @ [p, a, g, e] @ take k rest @ [rest ! k] @ drop (Suc k) rest"
  proof -
    have "rest = take k rest @ rest ! k # drop (Suc k) rest" using k(1) by (rule id_take_nth_drop)
    then have "p # a # g # e # rest = [p, a, g, e] @ take k rest @ [rest ! k] @ drop (Suc k) rest"
      by simp
    with d show ?thesis by (metis takeWhile_dropWhile_id)
  qed
  moreover have "list_all is_space (takeWhile is_space s)"
    by (auto simp: list_all_iff dest: set_takeWhileD)
  ultimately show "page_marker L s"
    unfolding page_marker_def using lit sp k(3) by (intro exI[of _ "takeWhile is_space s"] exI[of _ "[p, a, g, e]"]
        exI[of _ "take k rest"] exI[of _ "[rest ! k]"] exI[of _ "drop (Suc k) rest"]) simp
next
  assume "page_marker L s"
  then obtain ws1 lit ws2 ds rest where s: "s = ws1 @ lit @ ws2 @ ds @ rest"
    and w1: "list_all is_space ws1" and lit: "ascii_lower lit = u ''page''"
    and w2: "list_all is_space ws2" and ds: "ds \<noteq> []" "list_all (re_digit L) ds"
    by (auto simp: page_marker_def)
  from lit obtain p a g e where l: "lit = [p, a, g, e]" and p: "p = 112 \<or> p = 80"
    by (auto simp: u_page lower_page_iff)
  from ds obtain d ds' where dd: "ds = d # ds'" and dig: "re_digit L d"
    by (cases ds) auto
  let ?rest = "ws2 @ ds @ rest"
  have "dropWhile is_space s = dropWhile is_space (lit @ ?rest)"
    unfolding s using w1 by (simp add: dropWhile_append2 list_all_iff)
  also have "\<dots> = p # a # g # e # ?rest"
    using l page_letter_not_space[OF p] by simp
  finally have d: "dropWhile is_space s = p # a # g # e # ?rest" .
  have len: "length ws2 \<le> length (takeWhile is_space ?rest)"
  proof -
    have "takeWhile is_space ?rest = ws2 @ takeWhile is_space (ds @ rest)"
      using w2 by (simp add: takeWhile_append2 list_all_iff)
    then show ?thesis by simp
  qed
  have "?rest ! length ws2 = d" by (simp add: dd nth_append)
  moreover have "length ws2 < length ?rest" by (simp add: dd)
  ultimately have "d \<in> set (take (Suc (length (takeWhile is_space ?rest))) ?rest)"
    using len by (metis in_set_conv_nth le_imp_less_Suc length_take min_less_iff_conj nth_take)
  then have "list_ex (re_digit L) (take (Suc (length (takeWhile is_space ?rest))) ?rest)"
    using dig by (auto simp: list_ex_iff)
  then show "page_row_match L s"
    using d lit l by (simp add: page_row_match_def)
qed

text \<open>
  Claim C6. \<open>remove_page_rows\<close> removes exactly the rows whose vendor name starts
  with a page marker (the matcher of the code agrees with the pattern as the
  specification words it); "Page 3" is a marker and "Village Page Clinic" is not.
\<close>

theorem remove_page_rows_exact:
  assumes "distinct (columns df)"
  shows "remove_page_rows L df = Inr (keep_rows (\<lambda>r. \<not> is_page_row L df r) df) \<and>
         (re_digit L 51 \<longrightarrow> page_marker L (u ''Page 3'')) \<and>
         \<not> page_marker L (u ''Village Page Clinic'')"
proof (intro conjI)
  show "remove_page_rows L df = Inr (keep_rows (\<lambda>r. \<not> is_page_row L df r) df)"
  proof (cases "u ''vendor_name'' \<in> set (columns df)")
    case False
    then have "positions (columns df) (u ''vendor_name'') = []" by (simp add: positions_Nil_iff)
    then have "keep_rows (\<lambda>r. \<not> is_page_row L df r) df = df"
      by (intro keep_rows_all) (simp add: is_page_row_def)
    then show ?thesis using False by (simp add: remove_page_rows_def)
  next
    case True
    then obtain i where i: "positions (columns df) (u ''vendor_name'') = [i]"
      using positions_distinct[OF assms] by blast
    have eq: "is_page_row L df r \<longleftrightarrow> page_row_match L (astype_str L (cell_at r i))" for r
      by (simp add: is_page_row_def i page_row_match_marker)
    show ?thesis
    proof (cases "df_empty df")
      case True
      with \<open>u ''vendor_name'' \<in> set (columns df)\<close> have "rows df = []"
        by (auto simp: df_empty_def)
      then have "keep_rows (\<lambda>r. \<not> is_page_row L df r) df = df"
        by (intro keep_rows_all) simp
      then show ?thesis using True by (simp add: remove_page_rows_def)
    next
      case False
      then show ?thesis using True i by (simp add: remove_page_rows_def eq)
    qed
  qed
  show "re_digit L 51 \<longrightarrow> page_marker L (u ''Page 3'')"
    by (simp add: page_row_match_marker[symmetric] page_row_match_def u_def ascii_lower_def is_space_def)
  show "\<not> page_marker L (u ''Village Page Clinic'')"
    by (simp add: page_row_match_marker[symmetric] page_row_match_def u_def ascii_lower_def is_space_def)
qed

theorem remove_page_rows_exact_witness:
  "remove_page_rows ascii_lib
     \<lparr>columns = map u [''vendor_name'', ''amount''],
      rows = [[Str (u ''Page 3''), NA], [Str (u ''Village Page Clinic''), Num 5],
              [Str (u ''  pAGE   12 of 40''), NA]]\<rparr>
   = Inr \<lparr>columns = map u [''vendor_name'', ''amount''],
          rows = [[Str (u ''Village Page Clinic''), Num 5]]\<rparr>"
proof -
  let ?d = "\<lparr>columns = map u [''vendor_name'', ''amount''],
      rows = [[Str (u ''Page 3''), NA], [Str (u ''Village Page Clinic''), Num 5],
              [Str (u ''  pAGE   12 of 40''), NA]]\<rparr>"
  have d: "distinct (columns ?d)" by (simp add: u_def)
  have p: "positions (columns ?d) (u ''vendor_name'') = [0]" by (simp add: positions_def u_def)
  have "keep_rows (\<lambda>r. \<not> is_page_row ascii_lib ?d r) ?d
      = \<lparr>columns = map u [''vendor_name'', ''amount''],
          rows = [[Str (u ''Village Page Clinic''), Num 5]]\<rparr>"
    unfolding is_page_row_def p page_row_match_marker[symmetric]
    by (simp add: keep_rows_def page_row_match_def astype_str_def cell_at_def u_def
        ascii_lower_def is_space_def ascii_lib_def is_digit09_def)
  then show ?thesis using remove_page_rows_exact[OF d, of ascii_lib] by simp
qed

section \<open>Filtering\<close>










lemma given_None [simp]: "\<not> given None" by (simp add: given_def)
lemma given_Nil [simp]: "\<not> given (Some [])" by (simp add: given_def)












section \<open>Standardizing: the columns\<close>

lemma canonical_rename_label: "canonical L c = rename_label L c"
  by (simp add: canonical_def rename_label_def SYNONYMS_def Let_def)

lemma on_column_columns: "on_column name e f df = Inr d \<Longrightarrow> columns d = columns df"
  by (auto simp: on_column_def map_col_def split: if_splits list.splits)

lemma to_Int64_columns: "to_Int64 L name df = Inr d \<Longrightarrow> columns d = columns df"
  by (auto simp: to_Int64_def map_col_def Let_def split: if_splits list.splits)

lemma drop_blank_vendors_columns: "drop_blank_vendors df = Inr d \<Longrightarrow> columns d = columns df"
  by (auto simp: drop_blank_vendors_def split: if_splits list.splits)

lemma run_steps_columns:
  assumes "\<And>s d d'. s \<in> set steps \<Longrightarrow> s d = Inr d' \<Longrightarrow> columns d' = columns d"
  shows "run_steps steps df = Inr out \<Longrightarrow> columns out = columns df"
  using assms
proof (induction steps arbitrary: df)
  case Nil
  then show ?case by simp
next
  case (Cons s steps)
  from Cons.prems(1) obtain d where d: "s df = Inr d" and r: "run_steps steps d = Inr out"
    by (auto split: sum.splits)
  have "columns d = columns df" using Cons.prems(2)[of s df d] d by simp
  moreover have "columns out = columns d"
  proof (rule Cons.IH[OF r])
    fix s' d d' assume "s' \<in> set steps" "s' d = Inr d'"
    then show "columns d' = columns d" using Cons.prems(2)[of s' d d'] by simp
  qed
  ultimately show ?case by simp
qed

lemma standardize_steps_columns:
  "s \<in> set (standardize_steps L) \<Longrightarrow> s d = Inr d' \<Longrightarrow> columns d' = columns d"
  by (auto simp: standardize_steps_def dest: on_column_columns to_Int64_columns drop_blank_vendors_columns)

text \<open>
  Claim C4, amended. A table without rows or columns is returned as it is. On any other
  table, when \<open>standardize\<close> returns, the labels of the result are those of the input
  in order, each renamed by the table of synonyms when its lower-cased, trimmed form is
  there and kept as it is otherwise.
\<close>

theorem standardize_columns:
  "(df_empty df \<longrightarrow> standardize L df = Inr df) \<and>
   (\<not> df_empty df \<longrightarrow> standardize L df = Inr out \<longrightarrow>
      columns out = map (rename_label L) (columns df))"
proof (intro conjI impI)
  assume "df_empty df"
  then show "standardize L df = Inr df" by (simp add: standardize_def)
next
  assume "\<not> df_empty df" and "standardize L df = Inr out"
  then have "run_steps (standardize_steps L) (rename_columns L df) = Inr out"
    by (simp add: standardize_def)
  then have "columns out = columns (rename_columns L df)"
    by (rule run_steps_columns[rotated]) (rule standardize_steps_columns)
  then show "columns out = map (rename_label L) (columns df)"
    by (simp add: rename_columns_def canonical_rename_label[abs_def])
qed

lemmas std_eval =
  standardize_def standardize_steps_def rename_columns_def canonical_def df_empty_def
  on_column_def to_Int64_def drop_blank_vendors_def map_col_def keep_rows_def
  vendor_cell_def amount_cell_def amount_text_def coerce_def numeric_cell_def integral_cell_def
  month_cell_def county_cell_def nonblank_def astype_str_def MONTH_ORDER_def
  positions_def column_cells_def cell_at_def u_def Let_def
  ascii_lib_def ascii_lower_def py_strip_def is_space_def is_digit09_def parse_decimal_def
  digits_value_def

text \<open>
  Claim C4 as stated fails: the column "Notes" matches no synonym and is still in the
  result.
\<close>

theorem standardize_keeps_unmatched:
  "standardize ascii_lib
     \<lparr>columns = map u [''Vendor'', ''Notes''], rows = [[Str (u ''Acme''), Str (u ''paid'')]]\<rparr>
   = Inr \<lparr>columns = map u [''vendor_name'', ''Notes''],
          rows = [[Str (u ''Acme''), Str (u ''paid'')]]\<rparr>"
  by (simp add: std_eval)

theorem standardize_columns_witness:
  "standardize ascii_lib
     \<lparr>columns = map u ['' KES '', ''Provider'', ''Notes''],
      rows = [[Str (u ''12''), Str (u ''Acme''), Str (u ''paid'')]]\<rparr>
   = Inr \<lparr>columns = map u [''amount'', ''vendor_name'', ''Notes''],
          rows = [[Num 12, Str (u ''Acme''), Str (u ''paid'')]]\<rparr> \<and>
   map (rename_label ascii_lib) (map u ['' KES '', ''Provider'', ''Notes''])
   = map u [''amount'', ''vendor_name'', ''Notes'']"
  (is "?s = Inr ?out \<and> ?m = ?c")
proof -
  let ?d = "\<lparr>columns = map u ['' KES '', ''Provider'', ''Notes''],
      rows = [[Str (u ''12''), Str (u ''Acme''), Str (u ''paid'')]]\<rparr>"
  have e: "?s = Inr ?out" by (simp add: std_eval)
  have n: "\<not> df_empty ?d" by (simp add: df_empty_def)
  have "columns ?out = map (rename_label ascii_lib) (columns ?d)"
    using standardize_columns[of ?d ascii_lib ?out] e n by blast
  with e show ?thesis by simp
qed

section \<open>Standardizing: the rows and the amounts\<close>

lemma columns_cellwise [simp]: "columns (cellwise T df) = columns df"
  by (simp add: cellwise_def)

lemma wf_cellwise [simp]: "wf_frame df \<Longrightarrow> wf_frame (cellwise T df)"
  by (auto simp: wf_frame_def cellwise_def)

















lemma wf_rename [simp]: "wf_frame (rename_columns L df) = wf_frame df"
  by (simp add: wf_frame_def rename_columns_def)










section \<open>Standardizing: missing vendor names\<close>

text \<open>
  Claim C3 against the code: a row whose vendor name is missing is not dropped.
  \<open>astype(str)\<close> makes the missing value the text "nan" before the test for blank
  vendors, so the row stays with the vendor name "nan"; the row with the blank name is
  dropped.
\<close>

theorem standardize_keeps_null_vendor:
  "standardize ascii_lib
     \<lparr>columns = map u [''vendor_name'', ''amount''],
      rows = [[NA, Str (u ''100'')], [Str (u ''  ''), Str (u ''5'')]]\<rparr>
   = Inr \<lparr>columns = map u [''vendor_name'', ''amount''],
          rows = [[Str (u ''nan''), Num 100]]\<rparr>"
  by (simp add: std_eval)

section \<open>Enriching: facts about the join\<close>









section \<open>Enriching: how often a row is returned\<close>






section \<open>Enriching: the fuzzy pass\<close>












end
